theory Spec2Isabelle
  imports Complex_Main "HOL-Library.AList"
begin

section \<open>Values, parameter bundles and result series\<close>

text \<open>
  The notebook \<^verbatim>\<open>chapters/chap06.ipynb\<close> steps a population model year by year.
  Python numbers are either integers or floats. A float is modelled by the real number
  it denotes. The functions of the notebook are given over exact arithmetic, and again
  with the rounding of each float operation written out (\<open>round64\<close> below).
\<close>

datatype val = IntV int | FloatV real

fun num :: "val \<Rightarrow> real" where
  "num (IntV i) = of_int i"
| "num (FloatV x) = x"

text \<open>
  The exceptions the code can raise: reading an attribute that the bundle does not have
  (\<^verbatim>\<open>AttributeError\<close>), building a \<^verbatim>\<open>range\<close> from a float
  (\<^verbatim>\<open>TypeError\<close>), reading a label that the series does not have
  (\<^verbatim>\<open>KeyError\<close>).
\<close>

datatype error = AttributeError string | TypeError | KeyError val

text \<open>
  Modelled from the spec: the \<^verbatim>\<open>System\<close> object of the library module
  \<^verbatim>\<open>modsim\<close> (a \<^verbatim>\<open>SimpleNamespace\<close>, not part of the notebook), the
  spec's parameter bundle: a mapping from named parameters to numeric values.
\<close>

type_synonym System = "string \<rightharpoonup> val"

text \<open>
  Modelled from the spec: reading a field of the bundle, \<^verbatim>\<open>system.name\<close>. A field
  that is absent raises (the spec's MissingParameter, Python's \<^verbatim>\<open>AttributeError\<close>).
\<close>

definition getattr :: "System \<Rightarrow> string \<Rightarrow> error + val" where
  "getattr system name =
     (case system name of None \<Rightarrow> Inl (AttributeError name) | Some v \<Rightarrow> Inr v)"

text \<open>
  Modelled from the spec: the \<^verbatim>\<open>TimeSeries\<close> object of the library module
  \<^verbatim>\<open>modsim\<close> (a float-valued series, not part of the notebook), the spec's result
  series: an insertion-ordered mapping from index to numeric value, with one entry per
  index. \<^verbatim>\<open>TimeSeries()\<close> is the empty series.
\<close>

type_synonym TimeSeries = "(val \<times> real) list"

definition TimeSeries :: TimeSeries where
  "TimeSeries = []"

text \<open>
  Modelled from the spec: reading an entry of the series, \<^verbatim>\<open>results[k]\<close>. A label
  that is absent raises.
\<close>

definition getitem :: "TimeSeries \<Rightarrow> val \<Rightarrow> error + real" where
  "getitem results k =
     (case map_of results k of None \<Rightarrow> Inl (KeyError k) | Some x \<Rightarrow> Inr x)"

text \<open>
  Modelled from the spec: writing an entry of the series, \<^verbatim>\<open>results[k] = x\<close>. A
  label that is present keeps its place and takes the new value, a new label is
  appended.
\<close>

definition setitem :: "TimeSeries \<Rightarrow> val \<Rightarrow> real \<Rightarrow> TimeSeries" where
  "setitem results k x = AList.update k x results"

text \<open>
  Python's \<^verbatim>\<open>range(a, b)\<close>: the integers from \<open>a\<close> to \<open>b - 1\<close>, none when
  \<open>b \<le> a\<close>; a float argument raises.
\<close>

fun range_py :: "val \<Rightarrow> val \<Rightarrow> error + int list" where
  "range_py (IntV a) (IntV b) = Inr [a..b - 1]"
| "range_py _ _ = Inl TypeError"

section \<open>Float arithmetic\<close>

text \<open>
  A Python float is an IEEE 754 binary64 number, and each operation returns the
  float nearest to the exact result, a tie going to the even significand.
  \<open>round64\<close> is this rounding for results in the normal range: 53 significant bits
  at the binary exponent of the argument. Infinities, NaN and subnormal numbers are
  not modelled.
\<close>

definition round_half_even :: "real \<Rightarrow> int" where
  "round_half_even x =
     (let f = \<lfloor>x\<rfloor>; d = x - of_int f in
      if d < 1 / 2 then f else if 1 / 2 < d then f + 1 else if even f then f else f + 1)"

text \<open>
  The binary exponent \<open>e\<close> of \<open>x > 0\<close>, with \<open>2^e \<le> x < 2^(e+1)\<close>: a search from
  \<open>0\<close>, with fuel enough for every exponent of the normal range.
\<close>

fun exponent_search :: "nat \<Rightarrow> int \<Rightarrow> real \<Rightarrow> int" where
  "exponent_search 0 e x = e"
| "exponent_search (Suc n) e x =
     (if x < 2 powi e then exponent_search n (e - 1) x
      else if 2 powi (e + 1) \<le> x then exponent_search n (e + 1) x
      else e)"

definition exponent :: "real \<Rightarrow> int" where
  "exponent x = exponent_search 1100 0 \<bar>x\<bar>"

definition round64 :: "real \<Rightarrow> real" where
  "round64 x =
     (if x = 0 then 0
      else (let u = 2 powi (exponent x - 52) in of_int (round_half_even (x / u)) * u))"

text \<open>
  A number as a float operand, under the rounding \<open>rnd\<close>: an integer is converted, a
  float is taken as it is. With the identity for \<open>rnd\<close> arithmetic is exact.
\<close>

fun num_fl :: "(real \<Rightarrow> real) \<Rightarrow> val \<Rightarrow> real" where
  "num_fl rnd (IntV i) = rnd (of_int i)"
| "num_fl rnd (FloatV x) = x"

section \<open>Growth functions\<close>

text \<open>
  A growth function receives the year, the population and the bundle, which is the
  caller's own object: whatever it does to the bundle is seen by the caller. So it
  returns the bundle next to its result.
\<close>

type_synonym growth_func = "int \<Rightarrow> real \<Rightarrow> System \<Rightarrow> (error + real) \<times> System"

definition growth_func1 :: growth_func where
  "growth_func1 t pop system =
     (case getattr system ''birth_rate'' of
        Inl e \<Rightarrow> (Inl e, system)
      | Inr birth_rate \<Rightarrow>
          (let births = num birth_rate * pop in
           case getattr system ''death_rate'' of
             Inl e \<Rightarrow> (Inl e, system)
           | Inr death_rate \<Rightarrow>
               (let deaths = num death_rate * pop in
                (Inr (births - deaths), system))))"

definition growth_func2 :: growth_func where
  "growth_func2 t pop system =
     (case getattr system ''alpha'' of
        Inl e \<Rightarrow> (Inl e, system)
      | Inr alpha \<Rightarrow> (Inr (num alpha * pop), system))"

text \<open>The same two functions with each product and difference rounded by \<open>rnd\<close>.\<close>

definition growth_func1_fl :: "(real \<Rightarrow> real) \<Rightarrow> growth_func" where
  "growth_func1_fl rnd t pop system =
     (case getattr system ''birth_rate'' of
        Inl e \<Rightarrow> (Inl e, system)
      | Inr birth_rate \<Rightarrow>
          (let births = rnd (num_fl rnd birth_rate * pop) in
           case getattr system ''death_rate'' of
             Inl e \<Rightarrow> (Inl e, system)
           | Inr death_rate \<Rightarrow>
               (let deaths = rnd (num_fl rnd death_rate * pop) in
                (Inr (rnd (births - deaths)), system))))"

definition growth_func2_fl :: "(real \<Rightarrow> real) \<Rightarrow> growth_func" where
  "growth_func2_fl rnd t pop system =
     (case getattr system ''alpha'' of
        Inl e \<Rightarrow> (Inl e, system)
      | Inr alpha \<Rightarrow> (Inr (rnd (num_fl rnd alpha * pop)), system))"

section \<open>The simulation runners\<close>

text \<open>
  \<^verbatim>\<open>run_simulation1\<close>: constant growth, each sum rounded by \<open>rnd\<close>. The right-hand
  side of the assignment in the loop reads \<^verbatim>\<open>results[t]\<close> first, then
  \<^verbatim>\<open>system.annual_growth\<close>.
\<close>

fun run_simulation1_loop ::
  "(real \<Rightarrow> real) \<Rightarrow> System \<Rightarrow> int list \<Rightarrow> TimeSeries \<Rightarrow> error + TimeSeries" where
  "run_simulation1_loop rnd system [] results = Inr results"
| "run_simulation1_loop rnd system (t # ts) results =
     (case getitem results (IntV t) of
        Inl e \<Rightarrow> Inl e
      | Inr pop \<Rightarrow>
          (case getattr system ''annual_growth'' of
             Inl e \<Rightarrow> Inl e
           | Inr annual_growth \<Rightarrow>
               run_simulation1_loop rnd system ts
                 (setitem results (IntV (t + 1)) (rnd (pop + num_fl rnd annual_growth)))))"

definition run_simulation1 :: "(real \<Rightarrow> real) \<Rightarrow> System \<Rightarrow> error + TimeSeries" where
  "run_simulation1 rnd system =
     (case getattr system ''p_0'' of
        Inl e \<Rightarrow> Inl e
      | Inr p_0 \<Rightarrow>
     (case getattr system ''t_0'' of
        Inl e \<Rightarrow> Inl e
      | Inr k \<Rightarrow>
     (let results = setitem TimeSeries k (num_fl rnd p_0) in
      case getattr system ''t_0'' of
        Inl e \<Rightarrow> Inl e
      | Inr t_0 \<Rightarrow>
     (case getattr system ''t_end'' of
        Inl e \<Rightarrow> Inl e
      | Inr t_end \<Rightarrow>
     (case range_py t_0 t_end of
        Inl e \<Rightarrow> Inl e
      | Inr ts \<Rightarrow> run_simulation1_loop rnd system ts results)))))"

text \<open>
  \<^verbatim>\<open>run_simulation2\<close>: births and deaths proportional to the population, each
  operation rounded by \<open>rnd\<close>. Each product reads the rate before it reads
  \<^verbatim>\<open>results[t]\<close>; the new population is \<^verbatim>\<open>(results[t] + births) - deaths\<close>.
\<close>

fun run_simulation2_loop ::
  "(real \<Rightarrow> real) \<Rightarrow> System \<Rightarrow> int list \<Rightarrow> TimeSeries \<Rightarrow> error + TimeSeries" where
  "run_simulation2_loop rnd system [] results = Inr results"
| "run_simulation2_loop rnd system (t # ts) results =
     (case getattr system ''birth_rate'' of
        Inl e \<Rightarrow> Inl e
      | Inr birth_rate \<Rightarrow>
     (case getitem results (IntV t) of
        Inl e \<Rightarrow> Inl e
      | Inr pop_b \<Rightarrow>
     (let births = rnd (num_fl rnd birth_rate * pop_b) in
      case getattr system ''death_rate'' of
        Inl e \<Rightarrow> Inl e
      | Inr death_rate \<Rightarrow>
     (case getitem results (IntV t) of
        Inl e \<Rightarrow> Inl e
      | Inr pop_d \<Rightarrow>
     (let deaths = rnd (num_fl rnd death_rate * pop_d) in
      case getitem results (IntV t) of
        Inl e \<Rightarrow> Inl e
      | Inr pop \<Rightarrow>
          run_simulation2_loop rnd system ts
            (setitem results (IntV (t + 1)) (rnd (rnd (pop + births) - deaths))))))))"

definition run_simulation2 :: "(real \<Rightarrow> real) \<Rightarrow> System \<Rightarrow> error + TimeSeries" where
  "run_simulation2 rnd system =
     (case getattr system ''p_0'' of
        Inl e \<Rightarrow> Inl e
      | Inr p_0 \<Rightarrow>
     (case getattr system ''t_0'' of
        Inl e \<Rightarrow> Inl e
      | Inr k \<Rightarrow>
     (let results = setitem TimeSeries k (num_fl rnd p_0) in
      case getattr system ''t_0'' of
        Inl e \<Rightarrow> Inl e
      | Inr t_0 \<Rightarrow>
     (case getattr system ''t_end'' of
        Inl e \<Rightarrow> Inl e
      | Inr t_end \<Rightarrow>
     (case range_py t_0 t_end of
        Inl e \<Rightarrow> Inl e
      | Inr ts \<Rightarrow> run_simulation2_loop rnd system ts results)))))"

text \<open>
  \<^verbatim>\<open>run_simulation\<close>: the generic runner. The range is built once, before the
  loop; the growth function is called with the bundle as it is at that step, and the
  bundle it leaves is the one the next step and the caller see.
\<close>

fun run_simulation_loop ::
  "growth_func \<Rightarrow> int list \<Rightarrow> TimeSeries \<Rightarrow> System \<Rightarrow> (error + TimeSeries) \<times> System" where
  "run_simulation_loop growth_func [] results system = (Inr results, system)"
| "run_simulation_loop growth_func (t # ts) results system =
     (case getitem results (IntV t) of
        Inl e \<Rightarrow> (Inl e, system)
      | Inr pop \<Rightarrow>
     (case growth_func t pop system of
        (Inl e, system') \<Rightarrow> (Inl e, system')
      | (Inr growth, system') \<Rightarrow>
     (case getitem results (IntV t) of
        Inl e \<Rightarrow> (Inl e, system')
      | Inr x \<Rightarrow>
          run_simulation_loop growth_func ts
            (setitem results (IntV (t + 1)) (x + growth)) system')))"

definition run_simulation :: "System \<Rightarrow> growth_func \<Rightarrow> (error + TimeSeries) \<times> System" where
  "run_simulation system growth_func =
     (case getattr system ''p_0'' of
        Inl e \<Rightarrow> (Inl e, system)
      | Inr p_0 \<Rightarrow>
     (case getattr system ''t_0'' of
        Inl e \<Rightarrow> (Inl e, system)
      | Inr k \<Rightarrow>
     (let results = setitem TimeSeries k (num p_0) in
      case getattr system ''t_0'' of
        Inl e \<Rightarrow> (Inl e, system)
      | Inr t_0 \<Rightarrow>
     (case getattr system ''t_end'' of
        Inl e \<Rightarrow> (Inl e, system)
      | Inr t_end \<Rightarrow>
     (case range_py t_0 t_end of
        Inl e \<Rightarrow> (Inl e, system)
      | Inr ts \<Rightarrow> run_simulation_loop growth_func ts results system)))))"

text \<open>The generic runner with each sum rounded by \<open>rnd\<close>.\<close>

fun run_simulation_fl_loop ::
  "(real \<Rightarrow> real) \<Rightarrow> growth_func \<Rightarrow> int list \<Rightarrow> TimeSeries \<Rightarrow> System
     \<Rightarrow> (error + TimeSeries) \<times> System" where
  "run_simulation_fl_loop rnd growth_func [] results system = (Inr results, system)"
| "run_simulation_fl_loop rnd growth_func (t # ts) results system =
     (case getitem results (IntV t) of
        Inl e \<Rightarrow> (Inl e, system)
      | Inr pop \<Rightarrow>
     (case growth_func t pop system of
        (Inl e, system') \<Rightarrow> (Inl e, system')
      | (Inr growth, system') \<Rightarrow>
     (case getitem results (IntV t) of
        Inl e \<Rightarrow> (Inl e, system')
      | Inr x \<Rightarrow>
          run_simulation_fl_loop rnd growth_func ts
            (setitem results (IntV (t + 1)) (rnd (x + growth))) system')))"

definition run_simulation_fl ::
  "(real \<Rightarrow> real) \<Rightarrow> System \<Rightarrow> growth_func \<Rightarrow> (error + TimeSeries) \<times> System" where
  "run_simulation_fl rnd system growth_func =
     (case getattr system ''p_0'' of
        Inl e \<Rightarrow> (Inl e, system)
      | Inr p_0 \<Rightarrow>
     (case getattr system ''t_0'' of
        Inl e \<Rightarrow> (Inl e, system)
      | Inr k \<Rightarrow>
     (let results = setitem TimeSeries k (num_fl rnd p_0) in
      case getattr system ''t_0'' of
        Inl e \<Rightarrow> (Inl e, system)
      | Inr t_0 \<Rightarrow>
     (case getattr system ''t_end'' of
        Inl e \<Rightarrow> (Inl e, system)
      | Inr t_end \<Rightarrow>
     (case range_py t_0 t_end of
        Inl e \<Rightarrow> (Inl e, system)
      | Inr ts \<Rightarrow> run_simulation_fl_loop rnd growth_func ts results system)))))"

section \<open>The series a run produces, written out\<close>

text \<open>
  For the proofs: the population \<open>k\<close> steps after the start, when the step at year
  \<open>t\<close> adds \<open>h t pop\<close>, and the series of the first \<open>n + 1\<close> years.
\<close>

fun pop_after :: "(int \<Rightarrow> real \<Rightarrow> real) \<Rightarrow> int \<Rightarrow> real \<Rightarrow> nat \<Rightarrow> real" where
  "pop_after h a p 0 = p"
| "pop_after h a p (Suc k) = pop_after h a p k + h (a + int k) (pop_after h a p k)"

definition series_of :: "(int \<Rightarrow> real \<Rightarrow> real) \<Rightarrow> int \<Rightarrow> real \<Rightarrow> nat \<Rightarrow> TimeSeries" where
  "series_of h a p n = map (\<lambda>k. (IntV (a + int k), pop_after h a p k)) [0..<Suc n]"

text \<open>
  The notebook has no growth function for constant growth. This one, written after
  \<^verbatim>\<open>growth_func2\<close>, returns \<^verbatim>\<open>system.annual_growth\<close>; it serves to state
  that \<^verbatim>\<open>run_simulation1\<close> is the generic runner with constant growth.
\<close>

definition growth_const_fl :: "(real \<Rightarrow> real) \<Rightarrow> growth_func" where
  "growth_const_fl rnd t pop system =
     (case getattr system ''annual_growth'' of
        Inl e \<Rightarrow> (Inl e, system)
      | Inr annual_growth \<Rightarrow> (Inr (num_fl rnd annual_growth), system))"

text \<open>A growth function that writes to the bundle at each call, for a concrete instance.\<close>

definition growth_bump :: growth_func where
  "growth_bump t pop system = (Inr 1, system(''t_end'' \<mapsto> IntV 0))"

text \<open>Example bundles, for the concrete instances below.\<close>

definition ex_system :: System where
  "ex_system = [''t_0'' \<mapsto> IntV 0, ''t_end'' \<mapsto> IntV 2, ''p_0'' \<mapsto> FloatV 1]"

definition ex_reversed :: System where
  "ex_reversed = [''t_0'' \<mapsto> IntV 5, ''t_end'' \<mapsto> IntV 3, ''p_0'' \<mapsto> FloatV 1, ''alpha'' \<mapsto> FloatV 2]"



definition ex_rates :: System where
  "ex_rates = [''t_0'' \<mapsto> IntV 0, ''t_end'' \<mapsto> IntV 2, ''p_0'' \<mapsto> FloatV 1,
               ''annual_growth'' \<mapsto> FloatV 3,
               ''birth_rate'' \<mapsto> FloatV 3, ''death_rate'' \<mapsto> FloatV 2, ''alpha'' \<mapsto> FloatV 1]"

text \<open>
  Example bundles of floats. A decimal literal of Python is the float nearest to it:
  \<^verbatim>\<open>0.1\<close> is \<open>round64 0.1\<close>. The last bundle holds the rates of the notebook,
  \<^verbatim>\<open>25 / 1000\<close> and \<^verbatim>\<open>7.7 / 1000\<close>, and a population of 2.557628654 billion.
\<close>

definition ex_tenth :: System where
  "ex_tenth = [''t_0'' \<mapsto> IntV 0, ''t_end'' \<mapsto> IntV 1, ''p_0'' \<mapsto> FloatV (round64 0.1),
               ''alpha'' \<mapsto> FloatV (round64 0.2)]"

definition ex_steps :: System where
  "ex_steps = [''t_0'' \<mapsto> IntV 0, ''t_end'' \<mapsto> IntV 2, ''p_0'' \<mapsto> FloatV 1,
               ''annual_growth'' \<mapsto> FloatV (round64 0.1)]"

definition ex_1950_fl :: System where
  "ex_1950_fl = [''t_0'' \<mapsto> IntV 1950, ''t_end'' \<mapsto> IntV 1953, ''p_0'' \<mapsto> FloatV (round64 2.5),
                 ''alpha'' \<mapsto> FloatV (round64 0.02)]"

definition ex_notebook :: System where
  "ex_notebook = [''t_0'' \<mapsto> IntV 1950, ''t_end'' \<mapsto> IntV 1952,
                  ''p_0'' \<mapsto> FloatV (round64 2.557628654),
                  ''birth_rate'' \<mapsto> FloatV (round64 (25 / 1000)),
                  ''death_rate'' \<mapsto> FloatV (round64 (round64 7.7 / 1000))]"

section \<open>Lemmas on rounding\<close>

text \<open>
  The search finds the binary exponent, and \<open>round64 x\<close> is a multiple of
  \<open>2^(e - 52)\<close> within half of it from \<open>x\<close>, where \<open>e\<close> is the exponent of \<open>x\<close>.
\<close>

lemma exponent_search_finds:
  "2 powi e \<le> x \<Longrightarrow> x < 2 powi (e + 1) \<Longrightarrow> \<bar>e - c\<bar> \<le> int n \<Longrightarrow> exponent_search n c x = e"
proof (induction n arbitrary: c)
  case 0
  then show ?case by simp
next
  case (Suc n)
  consider "c = e" | "e < c" | "c < e" by linarith
  then show ?case
  proof cases
    case 1
    with Suc.prems show ?thesis by simp
  next
    case 2
    then have "(2::real) powi (e + 1) \<le> 2 powi c"
      by (intro power_int_increasing) simp_all
    with Suc.prems(2) have lt: "x < 2 powi c" by simp
    have "exponent_search n (c - 1) x = e"
      using Suc.prems 2 by (intro Suc.IH) simp_all
    with lt show ?thesis by simp
  next
    case 3
    then have "(2::real) powi (c + 1) \<le> 2 powi e"
      by (intro power_int_increasing) simp_all
    with Suc.prems(1) have ge: "2 powi (c + 1) \<le> x" by simp
    have "(2::real) powi c < 2 powi (c + 1)"
      by (intro power_int_strict_increasing) simp_all
    with ge have nlt: "\<not> x < 2 powi c" by simp
    have "exponent_search n (c + 1) x = e"
      using Suc.prems 3 by (intro Suc.IH) simp_all
    with ge nlt show ?thesis by simp
  qed
qed

lemma exponent_bounds:
  assumes "2 powi e \<le> \<bar>x\<bar>" and "\<bar>x\<bar> < 2 powi (e + 1)" and "\<bar>e\<bar> \<le> 1100"
  shows "exponent x = e"
  unfolding exponent_def using assms by (intro exponent_search_finds) simp_all

lemma round_half_even_near: "\<bar>of_int (round_half_even x) - x\<bar> \<le> 1 / 2"
  unfolding round_half_even_def Let_def by (auto simp: abs_le_iff)

lemma round64_near: "\<bar>round64 x - x\<bar> \<le> 2 powi (exponent x - 53)"
proof (cases "x = 0")
  case True
  then show ?thesis by (simp add: round64_def)
next
  case False
  let ?u = "(2::real) powi (exponent x - 52)"
  have u: "0 < ?u" by simp
  define m where "m = round_half_even (x / ?u)"
  have "round64 x - x = (of_int m - x / ?u) * ?u"
    using False u by (simp add: round64_def Let_def m_def left_diff_distrib)
  then have "\<bar>round64 x - x\<bar> = \<bar>of_int (round_half_even (x / ?u)) - x / ?u\<bar> * ?u"
    using u by (simp add: abs_mult m_def)
  also have "\<dots> \<le> 1 / 2 * ?u"
    using round_half_even_near [of "x / ?u"] u by (intro mult_right_mono) simp_all
  also have "\<dots> = 2 powi (exponent x - 53)"
    by (simp add: power_int_diff)
  finally show ?thesis .
qed

text \<open>Evaluation on numerals.\<close>

lemma exponent_search_numeral:
  "exponent_search (numeral k) e x =
     (if x < 2 powi e then exponent_search (pred_numeral k) (e - 1) x
      else if 2 powi (e + 1) \<le> x then exponent_search (pred_numeral k) (e + 1) x
      else e)"
  by (simp add: numeral_eq_Suc)

lemmas round64_eval =
  round64_def exponent_def exponent_search_numeral round_half_even_def Let_def power_int_minus

lemma round64_lits:
  "round64 (1 / 10) = 3602879701896397 / 36028797018963968"
  "round64 (1 / 5) = 3602879701896397 / 18014398509481984"
  "round64 (1 / 50) = 5764607523034235 / 288230376151711744"
  "round64 (5 / 2) = 5 / 2"
  "round64 (1278814327 / 500000000) = 1439816931638313 / 562949953421312"
  "round64 (1 / 40) = 3602879701896397 / 144115188075855872"
  "round64 (77 / 10) = 8669429282688205 / 1125899906842624"
  by (simp_all add: round64_eval)

lemma round64_lits2:
  "round64 (51 / 20) = 2871044762448691 / 1125899906842624"
  "round64 (2601 / 1000) = 2928465657697665 / 1125899906842624"
  "round64 (132651 / 50000) = 5974069941703237 / 2251799813685248"
  "round64 (6 / 5) = 5404319552844595 / 4503599627370496"
  by (simp_all add: round64_eval)

lemma num_fl_id: "num_fl (\<lambda>x. x) v = num v"
  by (cases v) simp_all

section \<open>Lemmas on the series\<close>

lemma update_fresh: "k \<notin> fst ` set al \<Longrightarrow> AList.update k v al = al @ [(k, v)]"
  by (induction al) auto

lemma series_of_Suc:
  "series_of h a p (Suc n) = series_of h a p n @ [(IntV (a + int (Suc n)), pop_after h a p (Suc n))]"
  by (simp add: series_of_def)

lemma keys_series_of: "fst ` set (series_of h a p n) = (\<lambda>k. IntV (a + int k)) ` {0..n}"
  by (force simp: series_of_def)

lemma map_of_series_of:
  "k \<le> n \<Longrightarrow> map_of (series_of h a p n) (IntV (a + int k)) = Some (pop_after h a p k)"
proof (induction n)
  case 0
  then show ?case by (simp add: series_of_def)
next
  case (Suc n)
  show ?case
  proof (cases "k = Suc n")
    case True
    have "IntV (a + int (Suc n)) \<notin> fst ` set (series_of h a p n)"
      by (auto simp: keys_series_of)
    then have "map_of (series_of h a p n) (IntV (a + int (Suc n))) = None"
      by (simp add: map_of_eq_None_iff)
    then show ?thesis using True
      by (simp only: series_of_Suc map_of_append) (simp add: map_add_def)
  next
    case False
    with Suc have "map_of (series_of h a p n) (IntV (a + int k)) = Some (pop_after h a p k)"
      by simp
    then show ?thesis
      by (simp only: series_of_Suc map_of_append) (simp add: map_add_def)
  qed
qed

lemma getitem_series_of:
  "k \<le> n \<Longrightarrow> getitem (series_of h a p n) (IntV (a + int k)) = Inr (pop_after h a p k)"
  by (simp add: getitem_def map_of_series_of)

lemma setitem_series_of:
  "setitem (series_of h a p n) (IntV (a + int n + 1)) (pop_after h a p n + h (a + int n) (pop_after h a p n))
     = series_of h a p (Suc n)"
proof -
  have "IntV (a + int n + 1) \<notin> fst ` set (series_of h a p n)"
    by (auto simp: keys_series_of)
  then show ?thesis
    by (simp add: setitem_def update_fresh series_of_Suc add.assoc)
qed

lemma getitem_member:
  "k \<in> fst ` set results \<Longrightarrow> \<exists>x. getitem results k = Inr x"
  by (cases "map_of results k") (auto simp: getitem_def map_of_eq_None_iff)

lemma keys_member: "a \<le> t \<Longrightarrow> map fst results = map IntV [a..t] \<Longrightarrow> IntV t \<in> fst ` set results"
  by (metis image_eqI list.set_map set_upto atLeastAtMost_iff order_refl)

lemma keys_fresh:
  assumes "map fst results = map IntV [a..t]"
  shows "IntV (t + 1) \<notin> fst ` set results"
proof
  assume "IntV (t + 1) \<in> fst ` set results"
  then have "IntV (t + 1) \<in> set (map IntV [a..t])" using assms by (metis list.set_map)
  then show False by auto
qed

lemma keys_setitem:
  assumes "a \<le> t" and "map fst results = map IntV [a..t]"
  shows "setitem results (IntV (t + 1)) v = results @ [(IntV (t + 1), v)]"
    and "map fst (setitem results (IntV (t + 1)) v) = map IntV [a..t + 1]"
proof -
  show 1: "setitem results (IntV (t + 1)) v = results @ [(IntV (t + 1), v)]"
    using keys_fresh [OF assms(2)] by (simp add: setitem_def update_fresh)
  show "map fst (setitem results (IntV (t + 1)) v) = map IntV [a..t + 1]"
    using assms upto_rec2 [of a "t + 1"] by (simp add: 1)
qed

lemma pop_after_proportional:
  "pop_after (\<lambda>t pop. c * pop) a p k = p * (1 + c) ^ k"
  by (induction k) (simp_all add: algebra_simps)

lemma pop_after_constant:
  "pop_after (\<lambda>t pop. c) a p k = p + of_nat k * c"
  by (induction k) (simp_all add: algebra_simps)

section \<open>Lemmas on the growth functions\<close>

lemma growth_func2_value:
  "s ''alpha'' = Some alpha \<Longrightarrow> growth_func2 t pop s = (Inr (num alpha * pop), s)"
  by (simp add: growth_func2_def getattr_def)

lemma growth_func1_value:
  "s ''birth_rate'' = Some br \<Longrightarrow> s ''death_rate'' = Some dr \<Longrightarrow>
     growth_func1 t pop s = (Inr (num br * pop - num dr * pop), s)"
  by (simp add: growth_func1_def getattr_def)



text \<open>With the identity for the rounding, the rounded functions are the exact ones.\<close>

lemma growth_func1_fl_exact: "growth_func1_fl (\<lambda>x. x) = growth_func1"
  by (intro ext) (simp add: growth_func1_fl_def growth_func1_def num_fl_id split: sum.splits)

lemma growth_func2_fl_exact: "growth_func2_fl (\<lambda>x. x) = growth_func2"
  by (intro ext) (simp add: growth_func2_fl_def growth_func2_def num_fl_id split: sum.splits)

section \<open>Lemmas on the loops\<close>

text \<open>With a growth function that returns \<open>h t pop\<close> and leaves the bundle alone.\<close>

lemma run_simulation_loop_series:
  assumes g: "\<forall>t pop. g t pop s = (Inr (h t pop), s)"
  shows "m \<le> n \<Longrightarrow>
    run_simulation_loop g [a + int m..a + int n - 1] (series_of h a p m) s
      = (Inr (series_of h a p n), s)"
proof (induction "n - m" arbitrary: m)
  case 0
  then show ?case by simp
next
  case (Suc d)
  then have lt: "m < n" by simp
  have e: "a + int m + 1 = a + int (Suc m)" by simp
  have le: "a + int m \<le> a + int n - 1" using lt by simp
  have r: "[a + int m..a + int n - 1] = (a + int m) # [a + int (Suc m)..a + int n - 1]"
    using upto_rec1 [OF le] unfolding e .
  have ih: "run_simulation_loop g [a + int (Suc m)..a + int n - 1] (series_of h a p (Suc m)) s
      = (Inr (series_of h a p n), s)"
    using Suc.hyps(1) [of "Suc m"] Suc.hyps(2) lt by simp
  show ?case
    by (simp only: r run_simulation_loop.simps getitem_series_of [OF order_refl] g [rule_format]
          sum.case prod.case setitem_series_of ih)
qed

lemma run_simulation1_loop_series:
  assumes ag: "s ''annual_growth'' = Some rate"
  shows "m \<le> n \<Longrightarrow>
    run_simulation1_loop (\<lambda>x. x) s [a + int m..a + int n - 1] (series_of (\<lambda>t pop. num rate) a p m)
      = Inr (series_of (\<lambda>t pop. num rate) a p n)"
proof (induction "n - m" arbitrary: m)
  case 0
  then show ?case by simp
next
  case (Suc d)
  then have lt: "m < n" by simp
  have e: "a + int m + 1 = a + int (Suc m)" by simp
  have le: "a + int m \<le> a + int n - 1" using lt by simp
  have r: "[a + int m..a + int n - 1] = (a + int m) # [a + int (Suc m)..a + int n - 1]"
    using upto_rec1 [OF le] unfolding e .
  have ih: "run_simulation1_loop (\<lambda>x. x) s [a + int (Suc m)..a + int n - 1]
              (series_of (\<lambda>t pop. num rate) a p (Suc m))
      = Inr (series_of (\<lambda>t pop. num rate) a p n)"
    using Suc.hyps(1) [of "Suc m"] Suc.hyps(2) lt by simp
  have st: "setitem (series_of (\<lambda>t pop. num rate) a p m) (IntV (a + int m + 1))
              (pop_after (\<lambda>t pop. num rate) a p m + num rate)
            = series_of (\<lambda>t pop. num rate) a p (Suc m)"
    using setitem_series_of [of "\<lambda>t pop. num rate" a p m] by simp
  show ?case
    by (simp only: r run_simulation1_loop.simps getitem_series_of [OF order_refl] getattr_def ag
          option.case sum.case num_fl_id st ih)
qed

lemma run_simulation2_loop_series:
  assumes br: "s ''birth_rate'' = Some br" and dr: "s ''death_rate'' = Some dr"
  shows "m \<le> n \<Longrightarrow>
    run_simulation2_loop (\<lambda>x. x) s [a + int m..a + int n - 1]
        (series_of (\<lambda>t pop. num br * pop - num dr * pop) a p m)
      = Inr (series_of (\<lambda>t pop. num br * pop - num dr * pop) a p n)"
proof (induction "n - m" arbitrary: m)
  case 0
  then show ?case by simp
next
  case (Suc d)
  let ?h = "\<lambda>(t::int) pop. num br * pop - num dr * pop"
  from Suc have lt: "m < n" by simp
  have e: "a + int m + 1 = a + int (Suc m)" by simp
  have le: "a + int m \<le> a + int n - 1" using lt by simp
  have r: "[a + int m..a + int n - 1] = (a + int m) # [a + int (Suc m)..a + int n - 1]"
    using upto_rec1 [OF le] unfolding e .
  have ih: "run_simulation2_loop (\<lambda>x. x) s [a + int (Suc m)..a + int n - 1] (series_of ?h a p (Suc m))
      = Inr (series_of ?h a p n)"
    using Suc.hyps(1) [of "Suc m"] Suc.hyps(2) lt by simp
  have v: "pop_after ?h a p m + num br * pop_after ?h a p m - num dr * pop_after ?h a p m
             = pop_after ?h a p m + (num br * pop_after ?h a p m - num dr * pop_after ?h a p m)"
    by simp
  have st: "setitem (series_of ?h a p m) (IntV (a + int m + 1))
              (pop_after ?h a p m + num br * pop_after ?h a p m - num dr * pop_after ?h a p m)
            = series_of ?h a p (Suc m)"
    unfolding v using setitem_series_of [of ?h a p m] by simp
  show ?case
    by (simp only: r run_simulation2_loop.simps getitem_series_of [OF order_refl] getattr_def br dr
          option.case sum.case Let_def num_fl_id st ih)
qed

text \<open>With any growth function: the bundle, the shape of the series, the errors.\<close>

lemma run_simulation_loop_frame:
  assumes "\<forall>t pop. snd (g t pop s) = s"
  shows "snd (run_simulation_loop g ts results s) = s"
proof (induction ts arbitrary: results)
  case Nil
  then show ?case by simp
next
  case (Cons t ts)
  show ?case
  proof (cases "getitem results (IntV t)")
    case (Inl e)
    then show ?thesis by simp
  next
    case (Inr pop)
    obtain res s' where gs: "g t pop s = (res, s')" by (cases "g t pop s")
    with assms have s': "s' = s" by (metis snd_conv)
    show ?thesis
      by (cases res) (simp_all add: Inr gs s' Cons.IH)
  qed
qed

lemma run_simulation_loop_extends:
  "a \<le> t \<Longrightarrow> map fst results = map IntV [a..t] \<Longrightarrow>
    run_simulation_loop g [t..t + int n - 1] results s = (Inr r, s') \<Longrightarrow>
    \<exists>ext. r = results @ ext \<and> map fst r = map IntV [a..t + int n]"
proof (induction n arbitrary: t results s)
  case 0
  then show ?case by simp
next
  case (Suc n)
  obtain x where x: "getitem results (IntV t) = Inr x"
    using getitem_member keys_member [OF Suc.prems(1,2)] by blast
  obtain res s'' where gd: "g t x s = (res, s'')" by (cases "g t x s")
  have r: "[t..t + int (Suc n) - 1] = t # [t + 1..t + 1 + int n - 1]"
    using upto_rec1 [of t "t + int (Suc n) - 1"] by simp
  show ?case
  proof (cases res)
    case (Inl e)
    then have "run_simulation_loop g [t..t + int (Suc n) - 1] results s = (Inl e, s'')"
      by (simp only: r run_simulation_loop.simps x gd sum.case prod.case)
    with Suc.prems(3) show ?thesis by simp
  next
    case (Inr d)
    let ?res = "setitem results (IntV (t + 1)) (x + d)"
    note k = keys_setitem [OF Suc.prems(1,2), of "x + d"]
    have "run_simulation_loop g [t..t + int (Suc n) - 1] results s
            = run_simulation_loop g [t + 1..t + 1 + int n - 1] ?res s''"
      by (simp only: r run_simulation_loop.simps x gd Inr sum.case prod.case)
    with Suc.prems(3) have "run_simulation_loop g [t + 1..t + 1 + int n - 1] ?res s'' = (Inr r, s')"
      by simp
    from Suc.IH [OF _ k(2) this] Suc.prems(1)
    obtain ext where "r = ?res @ ext" and keys: "map fst r = map IntV [a..t + 1 + int n]"
      by auto
    then have "r = results @ ((IntV (t + 1), x + d) # ext)" using k(1) by simp
    moreover have "map fst r = map IntV [a..t + int (Suc n)]" using keys by (simp add: ac_simps)
    ultimately show ?thesis by blast
  qed
qed

lemma run_simulation_loop_returns:
  assumes step: "\<forall>t pop s. P s \<longrightarrow> (\<exists>d s'. g t pop s = (Inr d, s') \<and> P s')"
  shows "P s \<Longrightarrow> a \<le> t \<Longrightarrow> map fst results = map IntV [a..t] \<Longrightarrow>
    \<exists>r s'. run_simulation_loop g [t..t + int n - 1] results s = (Inr r, s') \<and> P s'"
proof (induction n arbitrary: t results s)
  case 0
  then show ?case by simp
next
  case (Suc n)
  obtain x where x: "getitem results (IntV t) = Inr x"
    using getitem_member keys_member [OF Suc.prems(2,3)] by blast
  from step Suc.prems(1) obtain d s'' where gd: "g t x s = (Inr d, s'')" and P: "P s''" by blast
  let ?res = "setitem results (IntV (t + 1)) (x + d)"
  note k = keys_setitem [OF Suc.prems(2,3), of "x + d"]
  have r: "[t..t + int (Suc n) - 1] = t # [t + 1..t + 1 + int n - 1]"
    using upto_rec1 [of t "t + int (Suc n) - 1"] by simp
  have "run_simulation_loop g [t..t + int (Suc n) - 1] results s
          = run_simulation_loop g [t + 1..t + 1 + int n - 1] ?res s''"
    by (simp only: r run_simulation_loop.simps x gd sum.case prod.case)
  moreover from Suc.IH [OF P _ k(2)] Suc.prems(2)
  have "\<exists>r s'. run_simulation_loop g [t + 1..t + 1 + int n - 1] ?res s'' = (Inr r, s') \<and> P s'"
    by simp
  ultimately show ?case by simp
qed

lemma run_simulation_loop_errors:
  "a \<le> t \<Longrightarrow> map fst results = map IntV [a..t] \<Longrightarrow>
    fst (run_simulation_loop g [t..t + int n - 1] results s) = Inl e \<Longrightarrow>
    \<exists>u pop s'. fst (g u pop s') = Inl e"
proof (induction n arbitrary: t results s)
  case 0
  then show ?case by simp
next
  case (Suc n)
  have "IntV t \<in> fst ` set results"
    using Suc.prems by (metis image_eqI list.set_map set_upto atLeastAtMost_iff order_refl)
  then obtain x where x: "getitem results (IntV t) = Inr x"
    using getitem_member by blast
  obtain res s'' where gd: "g t x s = (res, s'')" by (cases "g t x s")
  have r: "[t..t + int (Suc n) - 1] = t # [t + 1..t + 1 + int n - 1]"
    using upto_rec1 [of t "t + int (Suc n) - 1"] by simp
  show ?case
  proof (cases res)
    case (Inl e')
    then have "fst (run_simulation_loop g [t..t + int (Suc n) - 1] results s) = Inl e'"
      by (simp only: r run_simulation_loop.simps x gd sum.case prod.case fst_conv)
    with Suc.prems(3) have "e' = e" by simp
    then have "fst (g t x s) = Inl e" using gd Inl by simp
    then show ?thesis by blast
  next
    case (Inr d)
    let ?res = "setitem results (IntV (t + 1)) (x + d)"
    have fresh: "IntV (t + 1) \<notin> fst ` set results"
    proof
      assume "IntV (t + 1) \<in> fst ` set results"
      then have "IntV (t + 1) \<in> set (map IntV [a..t])" using Suc.prems(2) by (metis list.set_map)
      then show False by auto
    qed
    have keys: "map fst ?res = map IntV [a..t + 1]"
      using Suc.prems upto_rec2 [of a "t + 1"] fresh by (simp add: setitem_def update_fresh)
    have "run_simulation_loop g [t..t + int (Suc n) - 1] results s
            = run_simulation_loop g [t + 1..t + 1 + int n - 1] ?res s''"
      by (simp only: r run_simulation_loop.simps x gd Inr sum.case prod.case)
    with Suc.prems(3) have "fst (run_simulation_loop g [t + 1..t + 1 + int n - 1] ?res s'') = Inl e"
      by simp
    from Suc.IH [OF _ keys this] Suc.prems(1) show ?thesis by simp
  qed
qed

lemma run_simulation_loop_cong:
  assumes eq: "\<forall>t pop. g1 t pop s = g2 t pop s" and fr: "\<forall>t pop. snd (g2 t pop s) = s"
  shows "run_simulation_loop g1 ts results s = run_simulation_loop g2 ts results s"
proof (induction ts arbitrary: results)
  case Nil
  then show ?case by simp
next
  case (Cons t ts)
  show ?case
  proof (cases "getitem results (IntV t)")
    case (Inl e)
    then show ?thesis by simp
  next
    case (Inr pop)
    obtain res s' where g2: "g2 t pop s = (res, s')" by (cases "g2 t pop s")
    with fr have s': "s' = s" by (metis snd_conv)
    have g1: "g1 t pop s = (res, s)" using eq g2 s' by simp
    show ?thesis
      by (cases res) (simp_all add: Inr g1 g2 s' Cons.IH)
  qed
qed

text \<open>With any rounding.\<close>

lemma run_simulation_fl_loop_exact:
  "run_simulation_fl_loop (\<lambda>x. x) g ts results s = run_simulation_loop g ts results s"
  by (induction ts arbitrary: results s) (simp_all split: sum.splits prod.splits)

lemma run_simulation1_loop_generic:
  "run_simulation1_loop rnd s ts results
     = fst (run_simulation_fl_loop rnd (growth_const_fl rnd) ts results s)"
proof (induction ts arbitrary: results)
  case Nil
  then show ?case by simp
next
  case (Cons t ts)
  show ?case
  proof (cases "getitem results (IntV t)")
    case (Inl e)
    then show ?thesis by simp
  next
    case pop: (Inr pop)
    show ?thesis
    proof (cases "getattr s ''annual_growth''")
      case (Inl e)
      then show ?thesis by (simp add: pop growth_const_fl_def)
    next
      case (Inr rate)
      then show ?thesis by (simp add: pop growth_const_fl_def Cons.IH)
    qed
  qed
qed

section \<open>Lemmas on the runners\<close>

lemma run_simulation_unfold:
  assumes t0: "s ''t_0'' = Some (IntV a)" and te: "s ''t_end'' = Some (IntV b)"
    and p0: "s ''p_0'' = Some p"
  shows "run_simulation s g = run_simulation_loop g [a..b - 1] [(IntV a, num p)] s"
  by (simp add: run_simulation_def getattr_def t0 te p0 setitem_def TimeSeries_def)

lemma run_simulation_fl_unfold:
  assumes t0: "s ''t_0'' = Some (IntV a)" and te: "s ''t_end'' = Some (IntV b)"
    and p0: "s ''p_0'' = Some p"
  shows "run_simulation_fl rnd s g = run_simulation_fl_loop rnd g [a..b - 1] [(IntV a, num_fl rnd p)] s"
  by (simp add: run_simulation_fl_def getattr_def t0 te p0 setitem_def TimeSeries_def)

lemma run_simulation1_unfold:
  assumes t0: "s ''t_0'' = Some (IntV a)" and te: "s ''t_end'' = Some (IntV b)"
    and p0: "s ''p_0'' = Some p"
  shows "run_simulation1 rnd s = run_simulation1_loop rnd s [a..b - 1] [(IntV a, num_fl rnd p)]"
  by (simp add: run_simulation1_def getattr_def t0 te p0 setitem_def TimeSeries_def)

lemma run_simulation2_unfold:
  assumes t0: "s ''t_0'' = Some (IntV a)" and te: "s ''t_end'' = Some (IntV b)"
    and p0: "s ''p_0'' = Some p"
  shows "run_simulation2 rnd s = run_simulation2_loop rnd s [a..b - 1] [(IntV a, num_fl rnd p)]"
  by (simp add: run_simulation2_def getattr_def t0 te p0 setitem_def TimeSeries_def)



lemma run_simulation_errors:
  assumes t0: "s ''t_0'' = Some (IntV a)" and te: "s ''t_end'' = Some (IntV b)"
    and p0: "s ''p_0'' = Some p" and err: "fst (run_simulation s g) = Inl e"
  shows "\<exists>u pop s'. fst (g u pop s') = Inl e"
proof -
  have e: "[a..a + int (nat (b - a)) - 1] = [a..b - 1]"
    by (cases "a \<le> b") simp_all
  have "fst (run_simulation_loop g [a..a + int (nat (b - a)) - 1] [(IntV a, num p)] s) = Inl e"
    using err unfolding e by (simp add: run_simulation_unfold [OF t0 te p0])
  then show ?thesis
    by (rule run_simulation_loop_errors [where a = a, rotated 2]) simp_all
qed

lemma run_simulation_series:
  assumes t0: "s ''t_0'' = Some (IntV a)" and te: "s ''t_end'' = Some (IntV b)"
    and p0: "s ''p_0'' = Some p0" and le: "a \<le> b"
    and g: "\<forall>t pop. g t pop s = (Inr (h t pop), s)"
  shows "run_simulation s g = (Inr (series_of h a (num p0) (nat (b - a))), s)"
proof -
  have init: "setitem TimeSeries (IntV a) (num p0) = series_of h a (num p0) 0"
    by (simp add: setitem_def TimeSeries_def series_of_def)
  have e: "a + int 0 = a" "a + int (nat (b - a)) - 1 = b - 1"
    using le by simp_all
  have L: "run_simulation_loop g [a + int 0..a + int (nat (b - a)) - 1] (series_of h a (num p0) 0) s
             = (Inr (series_of h a (num p0) (nat (b - a))), s)"
    by (rule run_simulation_loop_series [where g = g and s = s and h = h, OF g]) simp
  have "run_simulation s g = run_simulation_loop g [a..b - 1] (series_of h a (num p0) 0) s"
    by (simp add: run_simulation_def getattr_def t0 te p0 init)
  also have "\<dots> = (Inr (series_of h a (num p0) (nat (b - a))), s)"
    using L unfolding e .
  finally show ?thesis .
qed

lemma run_simulation1_series:
  assumes t0: "s ''t_0'' = Some (IntV a)" and te: "s ''t_end'' = Some (IntV b)"
    and p0: "s ''p_0'' = Some p0" and le: "a \<le> b"
    and ag: "s ''annual_growth'' = Some rate"
  shows "run_simulation1 (\<lambda>x. x) s = Inr (series_of (\<lambda>t pop. num rate) a (num p0) (nat (b - a)))"
proof -
  let ?h = "\<lambda>(t::int) (pop::real). num rate"
  have init: "setitem TimeSeries (IntV a) (num p0) = series_of ?h a (num p0) 0"
    by (simp add: setitem_def TimeSeries_def series_of_def)
  have e: "a + int 0 = a" "a + int (nat (b - a)) - 1 = b - 1"
    using le by simp_all
  have L: "run_simulation1_loop (\<lambda>x. x) s [a + int 0..a + int (nat (b - a)) - 1] (series_of ?h a (num p0) 0)
             = Inr (series_of ?h a (num p0) (nat (b - a)))"
    by (rule run_simulation1_loop_series [where s = s and rate = rate, OF ag]) simp
  have "run_simulation1 (\<lambda>x. x) s = run_simulation1_loop (\<lambda>x. x) s [a..b - 1] (series_of ?h a (num p0) 0)"
    by (simp add: run_simulation1_def getattr_def t0 te p0 num_fl_id init)
  also have "\<dots> = Inr (series_of ?h a (num p0) (nat (b - a)))"
    using L unfolding e .
  finally show ?thesis .
qed

lemma run_simulation2_series:
  assumes t0: "s ''t_0'' = Some (IntV a)" and te: "s ''t_end'' = Some (IntV b)"
    and p0: "s ''p_0'' = Some p0" and le: "a \<le> b"
    and br: "s ''birth_rate'' = Some br" and dr: "s ''death_rate'' = Some dr"
  shows "run_simulation2 (\<lambda>x. x) s
    = Inr (series_of (\<lambda>t pop. num br * pop - num dr * pop) a (num p0) (nat (b - a)))"
proof -
  let ?h = "\<lambda>(t::int) pop. num br * pop - num dr * pop"
  have init: "setitem TimeSeries (IntV a) (num p0) = series_of ?h a (num p0) 0"
    by (simp add: setitem_def TimeSeries_def series_of_def)
  have e: "a + int 0 = a" "a + int (nat (b - a)) - 1 = b - 1"
    using le by simp_all
  have L: "run_simulation2_loop (\<lambda>x. x) s [a + int 0..a + int (nat (b - a)) - 1] (series_of ?h a (num p0) 0)
             = Inr (series_of ?h a (num p0) (nat (b - a)))"
    by (rule run_simulation2_loop_series [where s = s and br = br and dr = dr, OF br dr]) simp
  have "run_simulation2 (\<lambda>x. x) s = run_simulation2_loop (\<lambda>x. x) s [a..b - 1] (series_of ?h a (num p0) 0)"
    by (simp add: run_simulation2_def getattr_def t0 te p0 num_fl_id init)
  also have "\<dots> = Inr (series_of ?h a (num p0) (nat (b - a)))"
    using L unfolding e .
  finally show ?thesis .
qed

lemma run_simulation_cong:
  assumes eq: "\<forall>t pop. g1 t pop s = g2 t pop s" and fr: "\<forall>t pop. snd (g2 t pop s) = s"
  shows "run_simulation s g1 = run_simulation s g2"
proof -
  have L: "run_simulation_loop g1 ts results s = run_simulation_loop g2 ts results s" for ts results
    using eq fr by (rule run_simulation_loop_cong)
  show ?thesis
    by (simp add: run_simulation_def L split: sum.splits)
qed

lemma run_simulation_fl_exact: "run_simulation_fl (\<lambda>x. x) s g = run_simulation s g"
  by (simp add: run_simulation_fl_def run_simulation_def run_simulation_fl_loop_exact num_fl_id
        split: sum.splits)

lemma run_simulation1_generic:
  "run_simulation1 rnd s = fst (run_simulation_fl rnd s (growth_const_fl rnd))"
  by (simp add: run_simulation1_def run_simulation_fl_def run_simulation1_loop_generic
        split: sum.splits)

lemma ex_1950_fl_run:
  "run_simulation_fl round64 ex_1950_fl (growth_func2_fl round64)
     = (Inr [(IntV 1950, round64 2.5), (IntV 1951, round64 2.55), (IntV 1952, round64 2.601),
             (IntV 1953, round64 2.65302)], ex_1950_fl)"
proof -
  have "run_simulation_fl round64 ex_1950_fl (growth_func2_fl round64)
          = run_simulation_fl_loop round64 (growth_func2_fl round64) [1950..1953 - 1]
              [(IntV 1950, num_fl round64 (FloatV (round64 2.5)))] ex_1950_fl"
    by (rule run_simulation_fl_unfold) (simp_all add: ex_1950_fl_def)
  also have "\<dots> = (Inr [(IntV 1950, round64 2.5), (IntV 1951, round64 2.55), (IntV 1952, round64 2.601),
             (IntV 1953, round64 2.65302)], ex_1950_fl)"
    by (simp add: growth_func2_fl_def getattr_def ex_1950_fl_def getitem_def setitem_def
          round64_lits round64_lits2) (simp add: round64_eval)
  finally show ?thesis .
qed

section \<open>The generic runner\<close>

text \<open>
  C1. For a bundle with integer \<open>t_0 \<le> t_end\<close> and a \<open>p_0\<close>, and a growth function
  that returns a number and leaves the bundle alone, \<open>run_simulation\<close> returns a
  series \<open>r\<close> with \<open>r[t_0] = p_0\<close> and, for each \<open>i\<close> from \<open>t_0\<close> to
  \<open>t_end - 1\<close>, \<open>r[i+1] = r[i] + g(i, r[i], bundle)\<close>.
\<close>

theorem run_simulation_recurrence:
  assumes t0: "system ''t_0'' = Some (IntV a)" and te: "system ''t_end'' = Some (IntV b)"
    and p0: "system ''p_0'' = Some p" and le: "a \<le> b"
    and pure: "\<forall>t pop. \<exists>d. g t pop system = (Inr d, system)"
  shows "\<exists>r. run_simulation system g = (Inr r, system)
           \<and> getitem r (IntV a) = Inr (num p)
           \<and> (\<forall>i. a \<le> i \<and> i < b \<longrightarrow>
                 (\<exists>x d. getitem r (IntV i) = Inr x \<and> g i x system = (Inr d, system)
                        \<and> getitem r (IntV (i + 1)) = Inr (x + d)))"
proof -
  define h where "h t pop = projr (fst (g t pop system))" for t pop
  have g: "\<forall>t pop. g t pop system = (Inr (h t pop), system)"
  proof (intro allI)
    fix t pop
    from pure obtain d where "g t pop system = (Inr d, system)" by blast
    then show "g t pop system = (Inr (h t pop), system)" by (simp add: h_def)
  qed
  let ?n = "nat (b - a)"
  let ?r = "series_of h a (num p) ?n"
  have run: "run_simulation system g = (Inr ?r, system)"
    using run_simulation_series [where g = g and s = system and h = h, OF t0 te p0 le g] .
  have first: "getitem ?r (IntV a) = Inr (num p)"
    using getitem_series_of [of 0 ?n h a "num p"] by simp
  have step: "\<exists>x d. getitem ?r (IntV i) = Inr x \<and> g i x system = (Inr d, system)
                 \<and> getitem ?r (IntV (i + 1)) = Inr (x + d)" if i: "a \<le> i \<and> i < b" for i
  proof -
    define k where "k = nat (i - a)"
    have ik: "i = a + int k" and k: "Suc k \<le> ?n" using i by (auto simp: k_def)
    have i1: "i + 1 = a + int (Suc k)" using ik by simp
    have "getitem ?r (IntV i) = Inr (pop_after h a (num p) k)"
      unfolding ik using k by (intro getitem_series_of) simp
    moreover have "g i (pop_after h a (num p) k) system = (Inr (h i (pop_after h a (num p) k)), system)"
      using g by blast
    moreover have "getitem ?r (IntV (i + 1)) = Inr (pop_after h a (num p) k + h i (pop_after h a (num p) k))"
      unfolding i1 using getitem_series_of [OF k, of h a "num p"] by (simp add: ik)
    ultimately show ?thesis by blast
  qed
  from run first step show ?thesis by blast
qed

theorem run_simulation_recurrence_witness:
  "\<exists>r. run_simulation ex_system (\<lambda>t pop s. (Inr pop, s)) = (Inr r, ex_system)
       \<and> getitem r (IntV 0) = Inr 1 \<and> getitem r (IntV 1) = Inr 2 \<and> getitem r (IntV 2) = Inr 4"
proof -
  let ?g = "\<lambda>(t::int) (pop::real) (s::System). (Inr pop :: error + real, s)"
  from run_simulation_recurrence [of ex_system 0 2 "FloatV 1" ?g]
  obtain r where run: "run_simulation ex_system ?g = (Inr r, ex_system)"
    and first: "getitem r (IntV 0) = Inr 1"
    and step: "\<forall>i. 0 \<le> i \<and> i < 2 \<longrightarrow>
                 (\<exists>x. getitem r (IntV i) = Inr x \<and> getitem r (IntV (i + 1)) = Inr (x + x))"
    by (auto simp: ex_system_def)
  from step [rule_format, of 0] first have second: "getitem r (IntV 1) = Inr 2" by auto
  from step [rule_format, of 1] second have "getitem r (IntV 2) = Inr 4" by auto
  with run first second show ?thesis by blast
qed

text \<open>
  C2. For a bundle with integer \<open>t_0 \<le> t_end\<close> and a \<open>p_0\<close>, and every growth
  function: a series that \<open>run_simulation\<close> returns has exactly \<open>t_end - t_0 + 1\<close>
  entries, its indices are the integers \<open>t_0, t_0 + 1, \<dots>, t_end\<close> in this order, and
  its value at \<open>t_0\<close> is \<open>p_0\<close>; when \<open>t_0 = t_end\<close> it is the one-entry series
  holding \<open>p_0\<close>. The run fails only with an error that the growth function raises;
  and it does return a series when the growth function returns a number on every
  bundle of a set \<open>P\<close> that holds the bundle and that the growth function does not
  leave (the one bundle itself, for a growth function that does not write to it).
\<close>

theorem run_simulation_shape:
  assumes t0: "system ''t_0'' = Some (IntV a)" and te: "system ''t_end'' = Some (IntV b)"
    and p0: "system ''p_0'' = Some p" and le: "a \<le> b"
  shows "(\<forall>r s'. run_simulation system g = (Inr r, s') \<longrightarrow>
            int (length r) = b - a + 1
            \<and> map fst r = map IntV [a..b]
            \<and> getitem r (IntV a) = Inr (num p)
            \<and> (a = b \<longrightarrow> r = [(IntV a, num p)]))
       \<and> (\<forall>e s'. run_simulation system g = (Inl e, s') \<longrightarrow>
            (\<exists>t pop s. fst (g t pop s) = Inl e))
       \<and> (P system \<and> (\<forall>t pop s. P s \<longrightarrow> (\<exists>d s'. g t pop s = (Inr d, s') \<and> P s')) \<longrightarrow>
            (\<exists>r s'. run_simulation system g = (Inr r, s') \<and> P s'))"
proof (intro conjI allI impI)
  have e: "a + int (nat (b - a)) - 1 = b - 1" "a + int (nat (b - a)) = b" using le by simp_all
  have keys0: "map fst [(IntV a, num p)] = map IntV [a..a]" by simp
  have unfold: "run_simulation system g
      = run_simulation_loop g [a..a + int (nat (b - a)) - 1] [(IntV a, num p)] system"
    unfolding e(1) by (rule run_simulation_unfold [OF t0 te p0])
  {
    fix r s'
    assume "run_simulation system g = (Inr r, s')"
    then have "run_simulation_loop g [a..a + int (nat (b - a)) - 1] [(IntV a, num p)] system = (Inr r, s')"
      by (simp only: unfold)
    from run_simulation_loop_extends [OF order_refl keys0 this]
    obtain ext where r: "r = (IntV a, num p) # ext" and keys: "map fst r = map IntV [a..b]"
      unfolding e by auto
    show len: "int (length r) = b - a + 1"
      using arg_cong [OF keys, of length] le by simp
    show "map fst r = map IntV [a..b]" by (rule keys)
    show "getitem r (IntV a) = Inr (num p)" by (simp add: r getitem_def)
    show "r = [(IntV a, num p)]" if "a = b"
      using len that r by simp
  }
  {
    fix e s'
    assume "run_simulation system g = (Inl e, s')"
    then have "fst (run_simulation system g) = Inl e" by simp
    then show "\<exists>t pop s. fst (g t pop s) = Inl e"
      by (rule run_simulation_errors [OF t0 te p0])
  }
  {
    assume P: "P system \<and> (\<forall>t pop s. P s \<longrightarrow> (\<exists>d s'. g t pop s = (Inr d, s') \<and> P s'))"
    then have step: "\<forall>t pop s. P s \<longrightarrow> (\<exists>d s'. g t pop s = (Inr d, s') \<and> P s')" by blast
    have "\<exists>r s'. run_simulation_loop g [a..a + int (nat (b - a)) - 1] [(IntV a, num p)] system
                   = (Inr r, s') \<and> P s'"
      using run_simulation_loop_returns [where P = P and g = g, OF step _ order_refl keys0] P
      by blast
    then show "\<exists>r s'. run_simulation system g = (Inr r, s') \<and> P s'"
      by (simp only: unfold)
  }
qed

theorem run_simulation_shape_witness:
  "(\<exists>r. run_simulation ex_rates growth_func1 = (Inr r, ex_rates)
      \<and> int (length r) = 3 \<and> map fst r = [IntV 0, IntV 1, IntV 2] \<and> getitem r (IntV 0) = Inr 1)
   \<and> (\<exists>r s'. run_simulation ex_system growth_bump = (Inr r, s')
      \<and> int (length r) = 3 \<and> map fst r = [IntV 0, IntV 1, IntV 2] \<and> getitem r (IntV 0) = Inr 1)"
proof
  have f: "ex_rates ''t_0'' = Some (IntV 0)" "ex_rates ''t_end'' = Some (IntV 2)"
    "ex_rates ''p_0'' = Some (FloatV 1)" "(0::int) \<le> 2"
    by (simp_all add: ex_rates_def)
  note th = run_simulation_shape [where g = growth_func1 and P = "\<lambda>s. s = ex_rates", OF f]
  have "\<forall>t pop s. s = ex_rates \<longrightarrow> (\<exists>d s'. growth_func1 t pop s = (Inr d, s') \<and> s' = ex_rates)"
    by (simp add: growth_func1_def getattr_def ex_rates_def)
  with th obtain r where run: "run_simulation ex_rates growth_func1 = (Inr r, ex_rates)"
    by blast
  with th have "int (length r) = 2 - 0 + 1 \<and> map fst r = map IntV [0..2] \<and> getitem r (IntV 0) = Inr (num (FloatV 1))"
    by blast
  with run show "\<exists>r. run_simulation ex_rates growth_func1 = (Inr r, ex_rates)
      \<and> int (length r) = 3 \<and> map fst r = [IntV 0, IntV 1, IntV 2] \<and> getitem r (IntV 0) = Inr 1"
    by (simp add: upto_rec1)
next
  have f: "ex_system ''t_0'' = Some (IntV 0)" "ex_system ''t_end'' = Some (IntV 2)"
    "ex_system ''p_0'' = Some (FloatV 1)" "(0::int) \<le> 2"
    by (simp_all add: ex_system_def)
  note th = run_simulation_shape [where g = growth_bump and P = "\<lambda>s. True", OF f]
  have "\<forall>t pop s. True \<longrightarrow> (\<exists>d s'. growth_bump t pop s = (Inr d, s') \<and> True)"
    by (simp add: growth_bump_def)
  with th obtain r s' where run: "run_simulation ex_system growth_bump = (Inr r, s')"
    by blast
  with th have "int (length r) = 2 - 0 + 1 \<and> map fst r = map IntV [0..2] \<and> getitem r (IntV 0) = Inr (num (FloatV 1))"
    by blast
  with run show "\<exists>r s'. run_simulation ex_system growth_bump = (Inr r, s')
      \<and> int (length r) = 3 \<and> map fst r = [IntV 0, IntV 1, IntV 2] \<and> getitem r (IntV 0) = Inr 1"
    by (simp add: upto_rec1)
qed

text \<open>
  C3, as the claim states it: a bundle whose \<open>t_end\<close> precedes its \<open>t_0\<close> makes the
  run fail. It does not: with \<open>t_0 = 5\<close> and \<open>t_end = 3\<close> the run returns a series.
\<close>

theorem reversed_range_returns_series_counterexample:
  "run_simulation ex_reversed growth_func2 = (Inr [(IntV 5, 1)], ex_reversed)"
  by (simp add: run_simulation_def getattr_def setitem_def TimeSeries_def ex_reversed_def)

text \<open>
  C3, amended. For a bundle with integer \<open>t_end < t_0\<close> and a \<open>p_0\<close>, and every growth
  function, the run raises nothing: the range is empty, the growth function is never
  called, and the run returns the one-entry series holding \<open>p_0\<close> at \<open>t_0\<close>, the
  bundle unchanged.
\<close>

theorem run_simulation_reversed_range:
  assumes t0: "system ''t_0'' = Some (IntV a)" and te: "system ''t_end'' = Some (IntV b)"
    and p0: "system ''p_0'' = Some p" and lt: "b < a"
  shows "run_simulation system g = (Inr [(IntV a, num p)], system)"
proof -
  have "[a..b - 1] = []" using lt by simp
  then have "run_simulation_loop g [a..b - 1] [(IntV a, num p)] system
               = (Inr [(IntV a, num p)], system)"
    by simp
  then show ?thesis
    by (simp only: run_simulation_unfold [OF t0 te p0])
qed

theorem run_simulation_reversed_range_witness:
  "run_simulation ex_reversed growth_bump = (Inr [(IntV 5, 1)], ex_reversed)"
  using run_simulation_reversed_range [of ex_reversed 5 3 "FloatV 1" growth_bump]
  by (simp add: ex_reversed_def)







text \<open>
  C8. A run leaves the bundle as it was: for a growth function that does not change the
  bundle, the bundle after \<open>run_simulation\<close> (whether it returns a series or raises)
  has every field at the value it had before, and no new field.
\<close>

theorem run_simulation_no_side_effect:
  assumes pure: "\<forall>t pop. snd (g t pop system) = system"
  shows "snd (run_simulation system g) = system"
proof -
  have loop: "snd (run_simulation_loop g ts results system) = system" for ts results
    using pure by (rule run_simulation_loop_frame)
  show ?thesis
  proof (cases "getattr system ''p_0''")
    case (Inl e)
    then show ?thesis by (simp add: run_simulation_def)
  next
    case p0: (Inr p_0)
    show ?thesis
    proof (cases "getattr system ''t_0''")
      case (Inl e)
      then show ?thesis by (simp add: run_simulation_def p0)
    next
      case t0: (Inr t_0)
      show ?thesis
        by (simp add: run_simulation_def p0 t0 loop split: sum.splits)
    qed
  qed
qed

theorem run_simulation_no_side_effect_witness:
  "snd (run_simulation ex_rates growth_func1) = ex_rates"
  using run_simulation_no_side_effect [of growth_func1 ex_rates]
  by (simp add: growth_func1_def split: sum.splits)

section \<open>Particular growth functions\<close>

text \<open>
  C4, as the claim states it: with \<open>growth_func2\<close>, \<open>series[t_0 + k] = p_0 * (1 +
  alpha)^k\<close>. In float arithmetic it is not: for the bundle \<open>{t_0: 0, t_end: 1, p_0:
  0.1, alpha: 0.2}\<close> the run returns \<open>series[1] = 0.12000000000000001\<close>, which is
  neither the real number \<open>p_0 * (1 + alpha)\<close> nor the float \<open>0.12\<close> that the
  closed form gives in float arithmetic.
\<close>

theorem proportional_float64_counterexample:
  "fst (run_simulation_fl round64 ex_tenth (growth_func2_fl round64))
     = Inr [(IntV 0, round64 0.1), (IntV 1, 8646911284551353 / 72057594037927936)]
   \<and> (8646911284551353 / 72057594037927936 :: real) \<noteq> round64 0.1 * (1 + round64 0.2) ^ 1
   \<and> (8646911284551353 / 72057594037927936 :: real)
        \<noteq> round64 (round64 0.1 * round64 (1 + round64 0.2))"
proof (intro conjI)
  have "run_simulation_fl round64 ex_tenth (growth_func2_fl round64)
          = run_simulation_fl_loop round64 (growth_func2_fl round64) [0..1 - 1]
              [(IntV 0, num_fl round64 (FloatV (round64 0.1)))] ex_tenth"
    by (rule run_simulation_fl_unfold) (simp_all add: ex_tenth_def)
  also have "\<dots> = (Inr [(IntV 0, round64 0.1), (IntV 1, 8646911284551353 / 72057594037927936)], ex_tenth)"
    by (simp add: growth_func2_fl_def getattr_def ex_tenth_def getitem_def setitem_def
          round64_lits) (simp add: round64_eval)
  finally show "fst (run_simulation_fl round64 ex_tenth (growth_func2_fl round64))
     = Inr [(IntV 0, round64 0.1), (IntV 1, 8646911284551353 / 72057594037927936)]"
    by simp
  show "(8646911284551353 / 72057594037927936 :: real) \<noteq> round64 0.1 * (1 + round64 0.2) ^ 1"
    by (simp add: round64_lits)
  show "(8646911284551353 / 72057594037927936 :: real)
        \<noteq> round64 (round64 0.1 * round64 (1 + round64 0.2))"
    by (simp add: round64_lits) (simp add: round64_eval)
qed

text \<open>
  C4, amended. Over exact arithmetic (the rounding left out), for a bundle with integer
  \<open>t_0 \<le> t_end\<close>, a \<open>p_0\<close> and an \<open>alpha\<close>, the run with \<open>growth_func2\<close> returns a
  series with \<open>series[t_0 + k] = p_0 * (1 + alpha)^k\<close> for all \<open>k \<le> t_end - t_0\<close>. In
  float arithmetic, for the bundle \<open>{t_0: 1950, t_end: 1953, p_0: 2.5, alpha: 0.02}\<close>
  the series is \<open>{1950: 2.5, 1951: 2.55, 1952: 2.601, 1953: 2.65302}\<close>, each value the
  float nearest to the decimal.
\<close>

theorem run_simulation_proportional:
  assumes t0: "system ''t_0'' = Some (IntV a)" and te: "system ''t_end'' = Some (IntV b)"
    and p0: "system ''p_0'' = Some p" and le: "a \<le> b"
    and al: "system ''alpha'' = Some alpha"
  shows "(\<exists>r. run_simulation_fl (\<lambda>x. x) system (growth_func2_fl (\<lambda>x. x)) = (Inr r, system)
            \<and> (\<forall>k. k \<le> nat (b - a) \<longrightarrow>
                  getitem r (IntV (a + int k)) = Inr (num p * (1 + num alpha) ^ k)))
         \<and> run_simulation_fl round64 ex_1950_fl (growth_func2_fl round64)
             = (Inr [(IntV 1950, round64 2.5), (IntV 1951, round64 2.55),
                     (IntV 1952, round64 2.601), (IntV 1953, round64 2.65302)], ex_1950_fl)"
proof
  let ?h = "\<lambda>(t::int) pop. num alpha * pop"
  have g: "\<forall>t pop. growth_func2 t pop system = (Inr (?h t pop), system)"
    using al by (simp add: growth_func2_value)
  have "run_simulation system growth_func2
               = (Inr (series_of ?h a (num p) (nat (b - a))), system)"
    using run_simulation_series [where g = growth_func2 and h = ?h, OF t0 te p0 le g] .
  then have run: "run_simulation_fl (\<lambda>x. x) system (growth_func2_fl (\<lambda>x. x))
               = (Inr (series_of ?h a (num p) (nat (b - a))), system)"
    by (simp only: run_simulation_fl_exact growth_func2_fl_exact)
  have "getitem (series_of ?h a (num p) (nat (b - a))) (IntV (a + int k))
          = Inr (num p * (1 + num alpha) ^ k)" if "k \<le> nat (b - a)" for k
    using that by (simp add: getitem_series_of pop_after_proportional)
  with run show "\<exists>r. run_simulation_fl (\<lambda>x. x) system (growth_func2_fl (\<lambda>x. x)) = (Inr r, system)
            \<and> (\<forall>k. k \<le> nat (b - a) \<longrightarrow>
                  getitem r (IntV (a + int k)) = Inr (num p * (1 + num alpha) ^ k))"
    by blast
next
  show "run_simulation_fl round64 ex_1950_fl (growth_func2_fl round64)
             = (Inr [(IntV 1950, round64 2.5), (IntV 1951, round64 2.55),
                     (IntV 1952, round64 2.601), (IntV 1953, round64 2.65302)], ex_1950_fl)"
    by (rule ex_1950_fl_run)
qed

theorem run_simulation_proportional_witness:
  "\<exists>r. run_simulation_fl (\<lambda>x. x) ex_rates (growth_func2_fl (\<lambda>x. x)) = (Inr r, ex_rates)
       \<and> getitem r (IntV 0) = Inr 1 \<and> getitem r (IntV 1) = Inr 2 \<and> getitem r (IntV 2) = Inr 4"
proof -
  from run_simulation_proportional [of ex_rates 0 2 "FloatV 1" "FloatV 1"]
  obtain r where run: "run_simulation_fl (\<lambda>x. x) ex_rates (growth_func2_fl (\<lambda>x. x)) = (Inr r, ex_rates)"
    and cf: "\<forall>k. k \<le> 2 \<longrightarrow> getitem r (IntV (int k)) = Inr (2 ^ k)"
    by (auto simp: ex_rates_def)
  from cf [rule_format, of 0] cf [rule_format, of 1] cf [rule_format, of 2] run
  show ?thesis by auto
qed

text \<open>
  C5, as the claim states it: \<open>run_simulation1\<close> gives \<open>series[t_0 + k] = p_0 + k *
  annual_growth\<close>. In float arithmetic it does not: for the bundle \<open>{t_0: 0, t_end:
  2, p_0: 1.0, annual_growth: 0.1}\<close> the run returns \<open>series[2] =
  1.2000000000000002\<close>, which is neither the real number \<open>p_0 + 2 * annual_growth\<close>
  nor the float \<open>1.2\<close> that the closed form gives in float arithmetic.
\<close>

theorem constant_float64_counterexample:
  "run_simulation1 round64 ex_steps
     = Inr [(IntV 0, 1), (IntV 1, 2476979795053773 / 2251799813685248),
            (IntV 2, 1351079888211149 / 1125899906842624)]
   \<and> (1351079888211149 / 1125899906842624 :: real) \<noteq> 1 + 2 * round64 0.1
   \<and> (1351079888211149 / 1125899906842624 :: real) \<noteq> round64 (1 + round64 (2 * round64 0.1))"
proof (intro conjI)
  have "run_simulation1 round64 ex_steps
          = run_simulation1_loop round64 ex_steps [0..2 - 1] [(IntV 0, num_fl round64 (FloatV 1))]"
    by (rule run_simulation1_unfold) (simp_all add: ex_steps_def)
  also have "\<dots> = Inr [(IntV 0, 1), (IntV 1, 2476979795053773 / 2251799813685248),
            (IntV 2, 1351079888211149 / 1125899906842624)]"
    by (simp add: getattr_def ex_steps_def getitem_def setitem_def round64_lits upto_rec1)
       (simp add: round64_eval)
  finally show "run_simulation1 round64 ex_steps
     = Inr [(IntV 0, 1), (IntV 1, 2476979795053773 / 2251799813685248),
            (IntV 2, 1351079888211149 / 1125899906842624)]" .
  show "(1351079888211149 / 1125899906842624 :: real) \<noteq> 1 + 2 * round64 0.1"
    by (simp add: round64_lits)
  show "(1351079888211149 / 1125899906842624 :: real) \<noteq> round64 (1 + round64 (2 * round64 0.1))"
    by (simp add: round64_lits) (simp add: round64_eval)
qed

text \<open>
  C5, amended. For every bundle, in float arithmetic as in exact arithmetic,
  \<open>run_simulation1\<close> returns what \<open>run_simulation\<close> returns with the growth function
  that returns \<open>annual_growth\<close>. Over exact arithmetic, for a bundle with integer
  \<open>t_0 \<le> t_end\<close>, a \<open>p_0\<close> and an \<open>annual_growth\<close>, it returns a series with
  \<open>series[t_0 + k] = p_0 + k * annual_growth\<close> for all \<open>k \<le> t_end - t_0\<close>.
\<close>

theorem run_simulation1_constant:
  assumes t0: "system ''t_0'' = Some (IntV a)" and te: "system ''t_end'' = Some (IntV b)"
    and p0: "system ''p_0'' = Some p" and le: "a \<le> b"
    and ag: "system ''annual_growth'' = Some rate"
  shows "(\<forall>rnd. run_simulation1 rnd system
                  = fst (run_simulation_fl rnd system (growth_const_fl rnd)))
         \<and> (\<exists>r. run_simulation1 (\<lambda>x. x) system = Inr r
               \<and> (\<forall>k. k \<le> nat (b - a) \<longrightarrow>
                     getitem r (IntV (a + int k)) = Inr (num p + of_nat k * num rate)))"
proof
  show "\<forall>rnd. run_simulation1 rnd system = fst (run_simulation_fl rnd system (growth_const_fl rnd))"
    by (simp add: run_simulation1_generic)
next
  let ?h = "\<lambda>(t::int) (pop::real). num rate"
  let ?r = "series_of ?h a (num p) (nat (b - a))"
  have run1: "run_simulation1 (\<lambda>x. x) system = Inr ?r"
    by (rule run_simulation1_series [OF t0 te p0 le ag])
  have "getitem ?r (IntV (a + int k)) = Inr (num p + of_nat k * num rate)"
    if "k \<le> nat (b - a)" for k
    using that by (simp add: getitem_series_of pop_after_constant)
  with run1 show "\<exists>r. run_simulation1 (\<lambda>x. x) system = Inr r
               \<and> (\<forall>k. k \<le> nat (b - a) \<longrightarrow>
                     getitem r (IntV (a + int k)) = Inr (num p + of_nat k * num rate))"
    by blast
qed

theorem run_simulation1_constant_witness:
  "run_simulation1 round64 ex_rates = fst (run_simulation_fl round64 ex_rates (growth_const_fl round64))
   \<and> (\<exists>r. run_simulation1 (\<lambda>x. x) ex_rates = Inr r
       \<and> getitem r (IntV 0) = Inr 1 \<and> getitem r (IntV 1) = Inr 4 \<and> getitem r (IntV 2) = Inr 7)"
proof -
  have f: "ex_rates ''t_0'' = Some (IntV 0)" "ex_rates ''t_end'' = Some (IntV 2)"
    "ex_rates ''p_0'' = Some (FloatV 1)" "(0::int) \<le> 2"
    "ex_rates ''annual_growth'' = Some (FloatV 3)"
    by (simp_all add: ex_rates_def)
  note th = run_simulation1_constant [OF f]
  from th obtain r where run: "run_simulation1 (\<lambda>x. x) ex_rates = Inr r"
    and cf: "\<forall>k. k \<le> nat (2 - 0) \<longrightarrow> getitem r (IntV (0 + int k)) = Inr (num (FloatV 1) + of_nat k * num (FloatV 3))"
    by blast
  from cf [rule_format, of 0] cf [rule_format, of 1] cf [rule_format, of 2]
  have "getitem r (IntV 0) = Inr 1 \<and> getitem r (IntV 1) = Inr 4 \<and> getitem r (IntV 2) = Inr 7"
    by simp
  with run th show ?thesis by blast
qed

text \<open>
  C9, as the claim states it: \<open>run_simulation\<close> with \<open>growth_func1\<close> and
  \<open>run_simulation2\<close> return the same series. In float arithmetic they do not: the
  first adds \<open>births - deaths\<close> to the population, the second subtracts \<open>deaths\<close>
  from \<open>population + births\<close>. For the notebook's rates and a population of
  2.557628654 in 1950, the value for 1952 is \<open>2.6468880781082555\<close> from the first and
  \<open>2.646888078108256\<close> from the second.
\<close>

theorem run_simulation2_float64_counterexample:
  "fst (run_simulation_fl round64 ex_notebook (growth_func1_fl round64))
     = Inr [(IntV 1950, 1439816931638313 / 562949953421312),
            (IntV 1951, 5858903058222623 / 2251799813685248),
            (IntV 1952, 2980131040564937 / 1125899906842624)]
   \<and> run_simulation2 round64 ex_notebook
     = Inr [(IntV 1950, 1439816931638313 / 562949953421312),
            (IntV 1951, 5858903058222623 / 2251799813685248),
            (IntV 1952, 5960262081129875 / 2251799813685248)]
   \<and> (2980131040564937 / 1125899906842624 :: real) \<noteq> 5960262081129875 / 2251799813685248"
proof (intro conjI)
  have "run_simulation_fl round64 ex_notebook (growth_func1_fl round64)
          = run_simulation_fl_loop round64 (growth_func1_fl round64) [1950..1952 - 1]
              [(IntV 1950, num_fl round64 (FloatV (round64 2.557628654)))] ex_notebook"
    by (rule run_simulation_fl_unfold) (simp_all add: ex_notebook_def)
  also have "\<dots> = (Inr [(IntV 1950, 1439816931638313 / 562949953421312),
            (IntV 1951, 5858903058222623 / 2251799813685248),
            (IntV 1952, 2980131040564937 / 1125899906842624)], ex_notebook)"
    by (simp add: growth_func1_fl_def getattr_def ex_notebook_def getitem_def setitem_def
          round64_lits) (simp add: round64_eval)
  finally show "fst (run_simulation_fl round64 ex_notebook (growth_func1_fl round64))
     = Inr [(IntV 1950, 1439816931638313 / 562949953421312),
            (IntV 1951, 5858903058222623 / 2251799813685248),
            (IntV 1952, 2980131040564937 / 1125899906842624)]"
    by simp
  have "run_simulation2 round64 ex_notebook
          = run_simulation2_loop round64 ex_notebook [1950..1952 - 1]
              [(IntV 1950, num_fl round64 (FloatV (round64 2.557628654)))]"
    by (rule run_simulation2_unfold) (simp_all add: ex_notebook_def)
  also have "\<dots> = Inr [(IntV 1950, 1439816931638313 / 562949953421312),
            (IntV 1951, 5858903058222623 / 2251799813685248),
            (IntV 1952, 5960262081129875 / 2251799813685248)]"
    by (simp add: getattr_def ex_notebook_def getitem_def setitem_def round64_lits)
       (simp add: round64_eval)
  finally show "run_simulation2 round64 ex_notebook
     = Inr [(IntV 1950, 1439816931638313 / 562949953421312),
            (IntV 1951, 5858903058222623 / 2251799813685248),
            (IntV 1952, 5960262081129875 / 2251799813685248)]" .
  show "(2980131040564937 / 1125899906842624 :: real) \<noteq> 5960262081129875 / 2251799813685248"
    by simp
qed

text \<open>
  C9, amended. Over exact arithmetic (the rounding left out), for a bundle with integer
  \<open>t_0 \<le> t_end\<close>, a \<open>p_0\<close>, a \<open>birth_rate\<close> and a \<open>death_rate\<close>, \<open>run_simulation\<close>
  with \<open>growth_func1\<close> and \<open>run_simulation2\<close> return the same series.
\<close>

theorem run_simulation_growth_func1_eq_run_simulation2:
  assumes t0: "system ''t_0'' = Some (IntV a)" and te: "system ''t_end'' = Some (IntV b)"
    and p0: "system ''p_0'' = Some p" and le: "a \<le> b"
    and br: "system ''birth_rate'' = Some birth_rate"
    and dr: "system ''death_rate'' = Some death_rate"
  shows "\<exists>r. run_simulation_fl (\<lambda>x. x) system (growth_func1_fl (\<lambda>x. x)) = (Inr r, system)
           \<and> run_simulation2 (\<lambda>x. x) system = Inr r"
proof -
  let ?h = "\<lambda>(t::int) pop. num birth_rate * pop - num death_rate * pop"
  have g: "\<forall>t pop. growth_func1 t pop system = (Inr (?h t pop), system)"
    using br dr by (simp add: growth_func1_value)
  have "run_simulation system growth_func1 = (Inr (series_of ?h a (num p) (nat (b - a))), system)"
    using run_simulation_series [where g = growth_func1 and h = ?h, OF t0 te p0 le g] .
  then have "run_simulation_fl (\<lambda>x. x) system (growth_func1_fl (\<lambda>x. x))
               = (Inr (series_of ?h a (num p) (nat (b - a))), system)"
    by (simp only: run_simulation_fl_exact growth_func1_fl_exact)
  moreover have "run_simulation2 (\<lambda>x. x) system = Inr (series_of ?h a (num p) (nat (b - a)))"
    by (rule run_simulation2_series [OF t0 te p0 le br dr])
  ultimately show ?thesis by blast
qed

theorem run_simulation_growth_func1_eq_run_simulation2_witness:
  "\<exists>r. run_simulation_fl (\<lambda>x. x) ex_rates (growth_func1_fl (\<lambda>x. x)) = (Inr r, ex_rates)
       \<and> run_simulation2 (\<lambda>x. x) ex_rates = Inr r"
  using run_simulation_growth_func1_eq_run_simulation2 [of ex_rates 0 2 "FloatV 1" "FloatV 3" "FloatV 2"]
  by (simp add: ex_rates_def)

text \<open>
  C10. For a bundle in which \<open>alpha\<close> equals \<open>birth_rate\<close> minus \<open>death_rate\<close>,
  \<open>growth_func2\<close> and \<open>growth_func1\<close> return the same at every year and population,
  so \<open>run_simulation\<close> gives the same result with either; and neither depends on the
  year.
\<close>

theorem growth_func2_eq_growth_func1:
  assumes al: "system ''alpha'' = Some alpha"
    and br: "system ''birth_rate'' = Some birth_rate"
    and dr: "system ''death_rate'' = Some death_rate"
    and eq: "num alpha = num birth_rate - num death_rate"
  shows "growth_func2 t pop system = growth_func1 t pop system
         \<and> run_simulation system growth_func2 = run_simulation system growth_func1
         \<and> growth_func1 t pop system = growth_func1 t' pop system
         \<and> growth_func2 t pop system = growth_func2 t' pop system"
proof -
  have same: "growth_func2 u x system = growth_func1 u x system" for u x
    by (simp add: growth_func2_value [where s = system, OF al]
          growth_func1_value [where s = system, OF br dr] eq algebra_simps)
  have fr: "\<forall>u x. snd (growth_func1 u x system) = system"
    by (simp add: growth_func1_value [where s = system, OF br dr])
  have "run_simulation system growth_func2 = run_simulation system growth_func1"
    using same fr by (intro run_simulation_cong) simp_all
  moreover have "growth_func1 t pop system = growth_func1 t' pop system"
    by (simp add: growth_func1_def)
  moreover have "growth_func2 t pop system = growth_func2 t' pop system"
    by (simp add: growth_func2_def)
  ultimately show ?thesis using same by blast
qed

theorem growth_func2_eq_growth_func1_witness:
  "growth_func2 1950 5 ex_rates = growth_func1 1950 5 ex_rates
   \<and> run_simulation ex_rates growth_func2 = run_simulation ex_rates growth_func1
   \<and> growth_func1 1950 5 ex_rates = growth_func1 1951 5 ex_rates
   \<and> growth_func2 1950 5 ex_rates = growth_func2 1951 5 ex_rates"
proof -
  have al: "ex_rates ''alpha'' = Some (FloatV 1)"
    and br: "ex_rates ''birth_rate'' = Some (FloatV 3)"
    and dr: "ex_rates ''death_rate'' = Some (FloatV 2)"
    by (simp_all add: ex_rates_def)
  have eq: "num (FloatV 1) = num (FloatV 3) - num (FloatV 2)" by simp
  show ?thesis
    by (rule growth_func2_eq_growth_func1 [where system = ex_rates, OF al br dr eq])
qed

end
